theory Spec2Isabelle
  imports Main
begin

section \<open>Pagination component: \<open>getPageNumbers\<close>\<close>

text \<open>
  The pagination component (src/unnamed/part_021) computes the entries of the page bar:
  page numbers and the string \<open>'...'\<close>. An entry is a number or the dots marker.
  JavaScript numbers are modelled as integers, the inputs the component is used with.
\<close>

datatype page_entry = Page int | Dots

text \<open>
  The \<open>for\<close> loop \<open>for (let i = lo; i <= hi; i++) range.push(i)\<close>, with the array
  built so far (\<open>range\<close> in the source) as accumulator \<open>rng\<close>.
\<close>

function range_loop :: "int \<Rightarrow> int \<Rightarrow> page_entry list \<Rightarrow> page_entry list" where
  "range_loop i hi rng = (if i \<le> hi then range_loop (i + 1) hi (rng @ [Page i]) else rng)"
  by pat_completeness auto
termination
  by (relation "measure (\<lambda>(i, hi, rng). nat (hi + 1 - i))") auto

text \<open>
  \<open>unshift\<close> puts an entry in front, \<open>push\<close> at the end. The source declares
  \<open>rangeWithDots\<close> and never uses it; its parameter \<open>total\<close> is \<open>totalPages\<close> here.
\<close>

definition getPageNumbers :: "int \<Rightarrow> int \<Rightarrow> page_entry list" where
  "getPageNumbers current totalPages =
     (let delta = 2;
          range0 = range_loop (max 2 (current - delta)) (min (totalPages - 1) (current + delta)) [];
          range1 = (if current - delta > 2 then Dots # range0 else range0);
          range2 = (if current + delta < totalPages - 1 then range1 @ [Dots] else range1);
          range3 = Page 1 # range2;
          range4 = (if totalPages > 1 then range3 @ [Page totalPages] else range3)
      in range4)"

text \<open>The numeric entries of a page bar, in order.\<close>

fun page_numbers :: "page_entry list \<Rightarrow> int list" where
  "page_numbers [] = []"
| "page_numbers (Page n # ps) = n # page_numbers ps"
| "page_numbers (Dots # ps) = page_numbers ps"

text \<open>
  Every dots entry stands directly between two page numbers that are not adjacent: it
  has a number \<open>a\<close> before it, a number \<open>b\<close> after it, and \<open>a + 1 < b\<close>.
\<close>

fun dots_between_gaps :: "page_entry list \<Rightarrow> bool" where
  "dots_between_gaps [] = True"
| "dots_between_gaps (Dots # rest) = False"
| "dots_between_gaps [Page a] = True"
| "dots_between_gaps (Page a # Page b # rest) = dots_between_gaps (Page b # rest)"
| "dots_between_gaps [Page a, Dots] = False"
| "dots_between_gaps (Page a # Dots # Dots # rest) = False"
| "dots_between_gaps (Page a # Dots # Page b # rest) =
     (a + 1 < b \<and> dots_between_gaps (Page b # rest))"


section \<open>Favorites store: \<open>policyDocumentsStore\<close>\<close>

text \<open>
  The documents store (src/unnamed/part_022). A value thrown by an API call is kept
  with its optional \<open>message\<close> property; the cached documents are a dictionary from
  document id to document, the document type being left open.
\<close>

datatype thrown = Thrown (message: "string option")

record 'doc DocumentsState =
  documents :: "string \<rightharpoonup> 'doc"
  favorites :: "string list"
  loading :: bool
  error :: "string option"

definition initialDocumentsState :: "'doc DocumentsState" where
  "initialDocumentsState =
     \<lparr>documents = Map.empty, favorites = [], loading = False, error = None\<rparr>"

text \<open>
  \<open>addFavorite\<close> and \<open>removeFavorite\<close> await the API call, whose outcome is a sum
  (\<open>Inl\<close> the thrown value), and update the store only when it resolved; a rejection is
  thrown again with the store untouched. The result is the outcome of the returned
  promise and the store's state.
\<close>

definition addFavorite ::
  "(string \<Rightarrow> string option \<Rightarrow> thrown + 'r) \<Rightarrow> string \<Rightarrow> string option \<Rightarrow>
     'doc DocumentsState \<Rightarrow> (thrown + unit) \<times> 'doc DocumentsState" where
  "addFavorite api documentId notes state =
     (case api documentId notes of
        Inl e \<Rightarrow> (Inl e, state)
      | Inr _ \<Rightarrow> (Inr (), state\<lparr>favorites := favorites state @ [documentId]\<rparr>))"

definition removeFavorite ::
  "(string \<Rightarrow> thrown + 'r) \<Rightarrow> string \<Rightarrow> 'doc DocumentsState \<Rightarrow>
     (thrown + unit) \<times> 'doc DocumentsState" where
  "removeFavorite api documentId state =
     (case api documentId of
        Inl e \<Rightarrow> (Inl e, state)
      | Inr _ \<Rightarrow>
          (Inr (), state\<lparr>favorites := filter (\<lambda>id. id \<noteq> documentId) (favorites state)\<rparr>))"


section \<open>Search store: \<open>policySearchStore\<close>\<close>

text \<open>
  The search store (src/src/lib/stores/policySearch.ts). The fields \<open>loading\<close> and
  \<open>error\<close> of its state are \<open>search_loading\<close> and \<open>search_error\<close> here, apart
  from those of the documents store; the fields of a request, a response and a facet
  carry a prefix.
\<close>

record SearchFilters =
  sources :: "string list option"
  municipalities :: "string list option"
  categories :: "string list option"
  date_from :: "string option"
  date_to :: "string option"
  document_type :: "string option"

record SearchFacet =
  facet_value :: string
  facet_count :: int

record SearchFacets =
  facet_sources :: "SearchFacet list"
  facet_municipalities :: "SearchFacet list"
  facet_categories :: "SearchFacet list"

record 'doc SearchState =
  query :: string
  filters :: SearchFilters
  results :: "'doc list"
  total :: int
  page :: int
  search_loading :: bool
  search_error :: "string option"
  facets :: SearchFacets
  took_ms :: int

record SearchRequest =
  req_query :: string
  req_filters :: SearchFilters
  req_page :: int
  req_limit :: int
  req_sort :: string

record 'doc SearchResponse =
  resp_results :: "'doc list"
  resp_total :: int
  resp_facets :: SearchFacets
  resp_page :: int
  resp_took_ms :: int

text \<open>
  \<open>error.message || 'Search failed'\<close>: the message when it is there and not empty,
  the default otherwise.
\<close>

definition message_or :: "thrown \<Rightarrow> string \<Rightarrow> string" where
  "message_or e dflt =
     (case message e of None \<Rightarrow> dflt | Some m \<Rightarrow> if m = [] then dflt else m)"

text \<open>
  \<open>search\<close> makes three updates: one before the API call, and one after it, in the
  \<open>try\<close> block when the call resolved and in the \<open>catch\<close> block when it was
  rejected. The method itself never rejects. The model runs one invocation with no
  other store operation in between. The arguments \<open>query\<close>, \<open>filters\<close>, \<open>page\<close> and
  \<open>sort\<close> are \<open>q\<close>, \<open>fs\<close>, \<open>p\<close> and \<open>srt\<close>.
\<close>

definition search_started ::
  "string \<Rightarrow> SearchFilters \<Rightarrow> int \<Rightarrow> 'doc SearchState \<Rightarrow> 'doc SearchState" where
  "search_started q fs p state =
     state\<lparr>search_loading := True, search_error := None, query := q, filters := fs, page := p\<rparr>"

definition search_resolved :: "'doc SearchResponse \<Rightarrow> 'doc SearchState \<Rightarrow> 'doc SearchState" where
  "search_resolved response state =
     state\<lparr>results := resp_results response, total := resp_total response,
       facets := resp_facets response, took_ms := resp_took_ms response,
       search_loading := False\<rparr>"

definition search_rejected :: "thrown \<Rightarrow> 'doc SearchState \<Rightarrow> 'doc SearchState" where
  "search_rejected e state =
     state\<lparr>search_loading := False, search_error := Some (message_or e ''Search failed'')\<rparr>"

definition search ::
  "(SearchRequest \<Rightarrow> thrown + 'doc SearchResponse) \<Rightarrow> string \<Rightarrow> SearchFilters \<Rightarrow> int \<Rightarrow>
     string \<Rightarrow> 'doc SearchState \<Rightarrow> 'doc SearchState" where
  "search searchPolicyDocuments q fs p srt state =
     (let started = search_started q fs p state in
      case searchPolicyDocuments
             \<lparr>req_query = q, req_filters = fs, req_page = p, req_limit = 20, req_sort = srt\<rparr> of
        Inr response \<Rightarrow> search_resolved response started
      | Inl e \<Rightarrow> search_rejected e started)"


section \<open>API client: \<open>handleResponse\<close>\<close>

text \<open>
  The API client (src/src/lib/apis/policy.ts). A JavaScript value as \<open>JSON.parse\<close>
  produces it, and \<open>undefined\<close> for a property that is not there. Numbers are kept as
  integers; a key written twice in an object keeps its last value.
\<close>

datatype js_value =
    JUndefined
  | JNull
  | JBool bool
  | JNumber int
  | JString string
  | JArray "js_value list"
  | JObject "(string \<times> js_value) list"

text \<open>
  What a rejected promise carries: \<open>new Error(v)\<close>, whose message is \<open>String(v)\<close>, the
  \<open>TypeError\<close> of a property read on \<open>null\<close>, or the \<open>SyntaxError\<close> of
  \<open>response.json()\<close> on a body that is not JSON.
\<close>

datatype js_error = Error js_value | TypeError | SyntaxError

text \<open>
  The fields of a \<open>Response\<close> that \<open>handleResponse\<close> reads. \<open>body\<close> is the parsed
  body, \<open>None\<close> when the body is not JSON; \<open>response.ok\<close> is true for the statuses
  200 to 299.
\<close>

record Response =
  status :: nat
  statusText :: string
  body :: "js_value option"

definition ok :: "Response \<Rightarrow> bool" where
  "ok response = (200 \<le> status response \<and> status response \<le> 299)"

text \<open>The operand test of \<open>||\<close>: \<open>undefined\<close>, \<open>null\<close>, \<open>false\<close>, \<open>0\<close> and \<open>''\<close> are falsy.\<close>

fun truthy :: "js_value \<Rightarrow> bool" where
  "truthy JUndefined = False"
| "truthy JNull = False"
| "truthy (JBool b) = b"
| "truthy (JNumber n) = (n \<noteq> 0)"
| "truthy (JString s) = (s \<noteq> [])"
| "truthy (JArray vs) = True"
| "truthy (JObject fs) = True"

text \<open>
  The property read \<open>error.detail\<close>: a \<open>TypeError\<close> on \<open>null\<close> and \<open>undefined\<close>, the
  field's value on an object that has it, \<open>undefined\<close> on every other value.
\<close>

fun get_detail :: "js_value \<Rightarrow> js_error + js_value" where
  "get_detail JUndefined = Inl TypeError"
| "get_detail JNull = Inl TypeError"
| "get_detail (JObject fs) =
     Inr (case map_of (rev fs) ''detail'' of None \<Rightarrow> JUndefined | Some v \<Rightarrow> v)"
| "get_detail v = Inr JUndefined"

text \<open>The decimal digits of a status code, for the template string.\<close>

function show_nat :: "nat \<Rightarrow> string" where
  "show_nat n =
     (if n < 10 then [''0123456789'' ! n]
      else show_nat (n div 10) @ [''0123456789'' ! (n mod 10)])"
  by pat_completeness auto
termination
  by (relation "measure (\<lambda>n. n)") auto

text \<open>
  \<open>handleResponse\<close>: \<open>Inl\<close> is the rejection of the returned promise, \<open>Inr\<close> the
  payload it resolves to.
\<close>

definition handleResponse :: "Response \<Rightarrow> js_error + js_value" where
  "handleResponse response =
     (if \<not> ok response then
        (let error = (case body response of
                        Some v \<Rightarrow> v
                      | None \<Rightarrow> JObject [(''detail'', JString (statusText response))])
         in case get_detail error of
              Inl e \<Rightarrow> Inl e
            | Inr detail \<Rightarrow>
                Inl (Error (if truthy detail then detail
                            else JString (''HTTP '' @ show_nat (status response) @ '': ''
                                          @ statusText response))))
      else (case body response of None \<Rightarrow> Inl SyntaxError | Some v \<Rightarrow> Inr v))"


section \<open>Anti-bot retry: \<open>RobustScraper.scrape_with_retry\<close>\<close>

text \<open>
  The scraper of the architecture document (src/policy-scanner-architecture.md, 5.2).
  Of a response the code reads the status and the path of its URL.
\<close>

record http_response =
  resp_status :: int
  resp_url_path :: string

text \<open>
  What one call of \<open>_fetch\<close> does: it returns a response, raises an
  \<open>aiohttp.ClientError\<close>, or raises another exception, which the \<open>except\<close> clause
  does not catch.
\<close>

datatype fetch_outcome = Fetched http_response | ClientError | OtherError

text \<open>
  What \<open>scrape_with_retry\<close> does: it returns a response, raises, or falls out of the
  \<open>for\<close> loop and returns \<open>None\<close>.
\<close>

datatype scrape_result = Returned http_response | Raised fetch_outcome | ReturnedNone

text \<open>\<open>str.lower\<close> on ASCII letters, and the substring test \<open>needle in haystack\<close>.\<close>

definition lower_char :: "char \<Rightarrow> char" where
  "lower_char c =
     (let n = (of_char c :: nat) in if 65 \<le> n \<and> n \<le> 90 then char_of (n + 32) else c)"

definition lower :: "string \<Rightarrow> string" where
  "lower s = map lower_char s"

fun contains :: "string \<Rightarrow> string \<Rightarrow> bool" where
  "contains needle [] = (needle = [])"
| "contains needle (c # cs) =
     (take (length needle) (c # cs) = needle \<or> contains needle cs)"

definition is_blocked :: "http_response \<Rightarrow> bool" where
  "is_blocked response =
     (if resp_status response = 403 then True
      else if resp_status response = 429 then True
      else if contains ''captcha'' (lower (resp_url_path response)) then True
      else False)"

text \<open>
  The loop \<open>for attempt in range(max_retries)\<close>. \<open>fetch attempt\<close> is the outcome of
  the call of \<open>_fetch\<close> in iteration \<open>attempt\<close>; \<open>_handle_blocking\<close> and
  \<open>retry_strategy.wait\<close> change headers and sleep, and are left out. The result comes
  with the number of calls of \<open>_fetch\<close> made.
\<close>

function scrape_loop :: "(nat \<Rightarrow> fetch_outcome) \<Rightarrow> int \<Rightarrow> nat \<Rightarrow> scrape_result \<times> nat" where
  "scrape_loop fetch max_retries attempt =
     (if int attempt < max_retries then
        (case fetch attempt of
           Fetched response \<Rightarrow>
             if is_blocked response then scrape_loop fetch max_retries (attempt + 1)
             else (Returned response, attempt + 1)
         | ClientError \<Rightarrow>
             if int attempt = max_retries - 1 then (Raised ClientError, attempt + 1)
             else scrape_loop fetch max_retries (attempt + 1)
         | OtherError \<Rightarrow> (Raised OtherError, attempt + 1))
      else (ReturnedNone, attempt))"
  by pat_completeness auto
termination
  by (relation "measure (\<lambda>(fetch, max_retries, attempt). nat (max_retries - int attempt))") auto

definition scrape_with_retry :: "(nat \<Rightarrow> fetch_outcome) \<Rightarrow> int \<Rightarrow> scrape_result \<times> nat" where
  "scrape_with_retry fetch max_retries = scrape_loop fetch max_retries 0"

text \<open>The default \<open>max_retries: int = 3\<close>.\<close>

definition scrape_with_retry_default :: "(nat \<Rightarrow> fetch_outcome) \<Rightarrow> scrape_result \<times> nat" where
  "scrape_with_retry_default fetch = scrape_with_retry fetch 3"

text \<open>
  Four servers: one answers every request with 403, one with 500; with one every call
  of \<open>_fetch\<close> raises a \<open>ClientError\<close>, with one another exception.
\<close>

definition always_forbidden :: "nat \<Rightarrow> fetch_outcome" where
  "always_forbidden attempt = Fetched \<lparr>resp_status = 403, resp_url_path = ''/search''\<rparr>"

definition always_server_error :: "nat \<Rightarrow> fetch_outcome" where
  "always_server_error attempt = Fetched \<lparr>resp_status = 500, resp_url_path = ''/search''\<rparr>"

definition always_client_error :: "nat \<Rightarrow> fetch_outcome" where
  "always_client_error attempt = ClientError"

definition always_other_error :: "nat \<Rightarrow> fetch_outcome" where
  "always_other_error attempt = OtherError"

text \<open>
  Two more: one answers the first request with 429 and every later one with 200; one
  answers the first two requests with 403, and from the third on every call of
  \<open>_fetch\<close> raises a \<open>ClientError\<close>.
\<close>

definition blocked_then_good :: "nat \<Rightarrow> fetch_outcome" where
  "blocked_then_good attempt =
     (if attempt = 0 then Fetched \<lparr>resp_status = 429, resp_url_path = ''/search''\<rparr>
      else Fetched \<lparr>resp_status = 200, resp_url_path = ''/search''\<rparr>)"

definition blocked_then_client_error :: "nat \<Rightarrow> fetch_outcome" where
  "blocked_then_client_error attempt =
     (if attempt < 2 then Fetched \<lparr>resp_status = 403, resp_url_path = ''/search''\<rparr>
      else ClientError)"

text \<open>
  The outcomes after which the loop goes on to the next iteration: a blocked response
  (\<open>continue\<close>), and a \<open>ClientError\<close>, which is raised again only in the last
  iteration.
\<close>

definition retried :: "fetch_outcome \<Rightarrow> bool" where
  "retried outcome =
     (case outcome of
        Fetched response \<Rightarrow> is_blocked response
      | ClientError \<Rightarrow> True
      | OtherError \<Rightarrow> False)"


section \<open>Discovery: \<open>MySourcePlugin.discover_documents\<close>\<close>

text \<open>
  The plugin of the developer guide (src/docs/policy-scanner/README.md). The test
  \<open>max_pages and page > max_pages\<close>: \<open>None\<close> and \<open>0\<close> are falsy in Python, so
  neither limits the pages.
\<close>

definition limit_reached :: "int option \<Rightarrow> int \<Rightarrow> bool" where
  "limit_reached max_pages page' =
     (case max_pages of None \<Rightarrow> False | Some m \<Rightarrow> m \<noteq> 0 \<and> page' > m)"

text \<open>
  The \<open>while True\<close> loop. \<open>fetch_page page\<close> is the outcome of building the URL of
  the page and calling \<open>_fetch_page\<close> on it, \<open>Inl\<close> when that raises;
  \<open>parse\<close> is \<open>_parse_search_results\<close>. The \<open>except\<close> clause logs the error and
  leaves the loop. Opening the session, reading robots.txt, the rate limiter and the
  crawl delay are waits with no part in the result, and are left out. The loop need
  not end: \<open>None\<close> is the run that goes on forever. The variables \<open>page\<close> and
  \<open>documents\<close> of the source are \<open>page'\<close> and \<open>documents'\<close> here.
\<close>

partial_function (option) discover_loop ::
  "(int \<Rightarrow> 'e + 'html) \<Rightarrow> ('html \<Rightarrow> 'doc list) \<Rightarrow> int option \<Rightarrow> int \<Rightarrow> 'doc list
     \<Rightarrow> 'doc list option" where
  "discover_loop fetch_page parse max_pages page' documents' =
     (if limit_reached max_pages page' then Some documents'
      else (case fetch_page page' of
              Inl e \<Rightarrow> Some documents'
            | Inr html \<Rightarrow>
                (let page_docs = parse html in
                 if page_docs = [] then Some documents'
                 else discover_loop fetch_page parse max_pages (page' + 1)
                        (documents' @ page_docs))))"

definition discover_documents ::
  "(int \<Rightarrow> 'e + 'html) \<Rightarrow> ('html \<Rightarrow> 'doc list) \<Rightarrow> int option \<Rightarrow> 'doc list option" where
  "discover_documents fetch_page parse max_pages = discover_loop fetch_page parse max_pages 1 []"

text \<open>
  A page at which the loop stops: the limit is reached there, or its fetch fails, or it
  yields no document. The documents a page contributes.
\<close>

definition stops_at :: "(int \<Rightarrow> 'e + 'html) \<Rightarrow> ('html \<Rightarrow> 'doc list) \<Rightarrow> int option \<Rightarrow> int \<Rightarrow> bool" where
  "stops_at fetch_page parse max_pages page' =
     (limit_reached max_pages page' \<or>
      (case fetch_page page' of Inl e \<Rightarrow> True | Inr html \<Rightarrow> parse html = []))"

definition docs_of_page :: "(int \<Rightarrow> 'e + 'html) \<Rightarrow> ('html \<Rightarrow> 'doc list) \<Rightarrow> int \<Rightarrow> 'doc list" where
  "docs_of_page fetch_page parse page' =
     (case fetch_page page' of Inl e \<Rightarrow> [] | Inr html \<Rightarrow> parse html)"

text \<open>
  A source of three pages: page 1 lists one document, the fetch of page 2 fails, page 3
  lists one document, every later page is empty. A page is given by the titles on it.
\<close>

definition second_page_fails :: "int \<Rightarrow> string + string list" where
  "second_page_fails page' =
     (if page' = 1 then Inr [''Verordening A'']
      else if page' = 2 then Inl ''HTTP 500''
      else if page' = 3 then Inr [''Verordening B'']
      else Inr [])"

definition titles :: "string list \<Rightarrow> string list" where
  "titles html = html"


section \<open>Listing pages: \<open>_parse_search_results\<close>\<close>

text \<open>
  An element that \<open>select_one\<close> found, with its text and its attributes, and a listing
  item, given by what \<open>select_one\<close> finds in it for the title, URL and date selectors
  (\<open>None\<close> when nothing matches).
\<close>

record element =
  elem_text :: string
  elem_attrs :: "(string \<times> string) list"

record listing_item =
  title_elem :: "element option"
  url_elem :: "element option"
  date_elem :: "element option"

datatype py_error = KeyError string | ValueError string

text \<open>
  \<open>DocumentMetadata\<close>, with the fields of both listings; dates are left open as
  \<open>'date\<close>.
\<close>

record 'date DocumentMetadata =
  title :: string
  url :: string
  external_id :: string
  publication_date :: "'date option"
  municipality :: "string option"
  document_type :: string
  metadata :: "(string \<times> string) list"

text \<open>\<open>tag['href']\<close> raises \<open>KeyError\<close> when the attribute is missing; \<open>tag.get('href')\<close> gives \<open>None\<close>.\<close>

definition getitem :: "element \<Rightarrow> string \<Rightarrow> py_error + string" where
  "getitem tag key =
     (case map_of (elem_attrs tag) key of None \<Rightarrow> Inl (KeyError key) | Some v \<Rightarrow> Inr v)"

definition get :: "element \<Rightarrow> string \<Rightarrow> string option" where
  "get tag key = map_of (elem_attrs tag) key"

subsection \<open>The Gemeenteblad scraper of the architecture document\<close>

text \<open>
  \<open>GemeentebladScraper._parse_search_results\<close> (src/policy-scanner-architecture.md,
  5.1). The functions the listing calls and does not show are parameters, taken to
  return: \<open>str.strip\<close>, \<open>urljoin\<close> on the base URL, \<open>_extract_id\<close> and \<open>_parse_date\<close>.
  The listing passes no \<open>metadata\<close> to \<open>DocumentMetadata\<close>; the construction is taken
  to succeed, with an empty dictionary.
\<close>

record 'date gemeenteblad_env =
  strip :: "string \<Rightarrow> string"
  urljoin :: "string \<Rightarrow> string"
  extract_id :: "string \<Rightarrow> string"
  parse_date :: "string option \<Rightarrow> 'date option"
  config_municipality :: "string option"

text \<open>
  The body of the \<open>for\<close> loop on one item: \<open>Inr None\<close> when the item is passed over,
  \<open>Inr (Some doc)\<close> when a document is appended, \<open>Inl\<close> when the body raises.
\<close>

definition gemeenteblad_item ::
  "'date gemeenteblad_env \<Rightarrow> listing_item \<Rightarrow> py_error + 'date DocumentMetadata option" where
  "gemeenteblad_item env item =
     (case (title_elem item, url_elem item) of
        (Some title_e, Some url_e) \<Rightarrow>
          (case getitem url_e ''href'' of
             Inl e \<Rightarrow> Inl e
           | Inr href \<Rightarrow>
               Inr (Some \<lparr>title = strip env (elem_text title_e),
                          url = urljoin env href,
                          external_id = extract_id env href,
                          publication_date =
                            parse_date env (case date_elem item of
                                              Some date_e \<Rightarrow> Some (elem_text date_e)
                                            | None \<Rightarrow> None),
                          municipality = config_municipality env,
                          document_type = ''pdf'',
                          metadata = []\<rparr>))
      | _ \<Rightarrow> Inr None)"

text \<open>The loop over the items, with the list \<open>documents\<close> built so far (\<open>documents'\<close>
  here); an exception ends it.\<close>

fun gemeenteblad_loop ::
  "'date gemeenteblad_env \<Rightarrow> listing_item list \<Rightarrow> 'date DocumentMetadata list
     \<Rightarrow> py_error + 'date DocumentMetadata list" where
  "gemeenteblad_loop env [] documents' = Inr documents'"
| "gemeenteblad_loop env (item # items) documents' =
     (case gemeenteblad_item env item of
        Inl e \<Rightarrow> Inl e
      | Inr None \<Rightarrow> gemeenteblad_loop env items documents'
      | Inr (Some doc) \<Rightarrow> gemeenteblad_loop env items (documents' @ [doc]))"

definition gemeenteblad_parse_search_results ::
  "'date gemeenteblad_env \<Rightarrow> listing_item list \<Rightarrow> py_error + 'date DocumentMetadata list" where
  "gemeenteblad_parse_search_results env items = gemeenteblad_loop env items []"

subsection \<open>The example plugin of the developer guide\<close>

text \<open>
  \<open>MySourcePlugin._parse_item\<close> and \<open>_parse_search_results\<close>
  (src/docs/policy-scanner/README.md). The helpers \<open>normalize_url\<close>,
  \<open>generate_external_id_hash\<close> and \<open>validate_date\<close> may raise; \<open>has_date_selector\<close>
  is the test \<open>'date' in self.config.selectors\<close>.
\<close>

record 'date mysource_env =
  get_text_strip :: "string \<Rightarrow> string"
  normalize_url :: "string \<Rightarrow> py_error + string"
  generate_external_id_hash :: "string \<Rightarrow> py_error + string"
  validate_date :: "string \<Rightarrow> py_error + 'date"
  has_date_selector :: bool

definition mysource_parse_item ::
  "'date mysource_env \<Rightarrow> listing_item \<Rightarrow> py_error + 'date DocumentMetadata option" where
  "mysource_parse_item env item =
     (case title_elem item of
        None \<Rightarrow> Inr None
      | Some title_e \<Rightarrow>
          (let title_text = get_text_strip env (elem_text title_e) in
           if title_text = [] then Inr None
           else
             (case url_elem item of
                None \<Rightarrow> Inr None
              | Some url_e \<Rightarrow>
                  (if get url_e ''href'' = None \<or> get url_e ''href'' = Some [] then Inr None
                   else
                     (case getitem url_e ''href'' of
                        Inl e \<Rightarrow> Inl e
                      | Inr href \<Rightarrow>
                          (case normalize_url env href of
                             Inl e \<Rightarrow> Inl e
                           | Inr doc_url \<Rightarrow>
                               (case generate_external_id_hash env doc_url of
                                  Inl e \<Rightarrow> Inl e
                                | Inr ext_id \<Rightarrow>
                                    Inr (Some \<lparr>title = title_text, url = doc_url, external_id = ext_id,
                                      publication_date =
                                        (if has_date_selector env then
                                           (case date_elem item of
                                              None \<Rightarrow> None
                                            | Some date_e \<Rightarrow>
                                                (case validate_date env
                                                        (get_text_strip env (elem_text date_e)) of
                                                   Inl e \<Rightarrow> None
                                                 | Inr d \<Rightarrow> Some d))
                                         else None),
                                      municipality = None,
                                      document_type = ''pdf'',
                                      metadata = [(''source'', ''my_source'')]\<rparr>))))))))"

text \<open>The loop with its \<open>try\<close> around every item: an exception is logged and the item skipped.\<close>

fun mysource_loop ::
  "'date mysource_env \<Rightarrow> listing_item list \<Rightarrow> 'date DocumentMetadata list
     \<Rightarrow> 'date DocumentMetadata list" where
  "mysource_loop env [] documents' = documents'"
| "mysource_loop env (item # items) documents' =
     (case mysource_parse_item env item of
        Inl e \<Rightarrow> mysource_loop env items documents'
      | Inr None \<Rightarrow> mysource_loop env items documents'
      | Inr (Some doc) \<Rightarrow> mysource_loop env items (documents' @ [doc]))"

definition mysource_parse_search_results ::
  "'date mysource_env \<Rightarrow> listing_item list \<Rightarrow> 'date DocumentMetadata list" where
  "mysource_parse_search_results env items = mysource_loop env items []"

text \<open>
  A page of three items: two well-formed ones around one whose link has no \<open>href\<close>
  attribute, as in \<open><a class="doc-url">Download</a>\<close>.
\<close>

definition item_first :: listing_item where
  "item_first =
     \<lparr>title_elem = Some \<lparr>elem_text = ''Verordening A'', elem_attrs = []\<rparr>,
      url_elem = Some \<lparr>elem_text = ''Download'', elem_attrs = [(''href'', ''/docs/1'')]\<rparr>,
      date_elem = None\<rparr>"

definition item_without_href :: listing_item where
  "item_without_href =
     \<lparr>title_elem = Some \<lparr>elem_text = ''Verordening B'', elem_attrs = []\<rparr>,
      url_elem = Some \<lparr>elem_text = ''Download'', elem_attrs = [(''class'', ''doc-url'')]\<rparr>,
      date_elem = None\<rparr>"

definition item_third :: listing_item where
  "item_third =
     \<lparr>title_elem = Some \<lparr>elem_text = ''Verordening C'', elem_attrs = []\<rparr>,
      url_elem = Some \<lparr>elem_text = ''Download'', elem_attrs = [(''href'', ''/docs/3'')]\<rparr>,
      date_elem = None\<rparr>"


section \<open>Deduplication Gate\<close>

text \<open>
  Modelled from the spec: the Deduplication Gate and the step of the pipeline that
  follows its decision (spec 2, 3 and 4.6). The repository's files hold the table
  \<open>documents\<close> with its \<open>content_hash\<close> column (src/unnamed/part_017) and no code
  of the gate. The persistent store maps a pair of source id and external id to the
  last fingerprint recorded for it.
\<close>

datatype DedupDecision = New | Updated | Unchanged | Failed

type_synonym fingerprint_store = "string \<times> string \<rightharpoonup> string"

definition decide :: "fingerprint_store \<Rightarrow> string \<Rightarrow> string \<Rightarrow> string \<Rightarrow> DedupDecision" where
  "decide store sourceID externalID fingerprint =
     (case store (sourceID, externalID) of
        None \<Rightarrow> New
      | Some stored \<Rightarrow> if stored = fingerprint then Unchanged else Updated)"

text \<open>
  Modelled from the spec: the pipeline state the gate and the Index Writer work on, the
  persistent store and the log of the Index Writer's invocations, and the disposition of
  one processed document: an unchanged document is skipped, a new or updated one goes
  to the Index Writer and its fingerprint is recorded.
\<close>

record pipeline_state =
  last_fingerprint :: fingerprint_store
  index_writes :: "(string \<times> string \<times> string) list"

definition dispose ::
  "pipeline_state \<Rightarrow> string \<Rightarrow> string \<Rightarrow> string \<Rightarrow> DedupDecision \<times> pipeline_state" where
  "dispose state sourceID externalID fingerprint =
     (case decide (last_fingerprint state) sourceID externalID fingerprint of
        Unchanged \<Rightarrow> (Unchanged, state)
      | decision \<Rightarrow>
          (decision,
           state\<lparr>last_fingerprint :=
                   (last_fingerprint state)((sourceID, externalID) \<mapsto> fingerprint),
                 index_writes :=
                   index_writes state @ [(sourceID, externalID, fingerprint)]\<rparr>))"

section \<open>Properties of the favorites store\<close>

text \<open>
  C9. Frame property of the favorites operations. When the API call of
  \<open>removeFavorite\<close> resolves, the returned promise resolves, no occurrence of the id
  remains in the favorites, and the documents cache, \<open>loading\<close> and \<open>error\<close> are as
  before. When the API call of \<open>addFavorite\<close> resolves, the favorites are the previous
  list with the id appended and the documents cache is as before; so adding the same id
  twice leaves one more occurrence each time.
\<close>

theorem favorites_frame:
  fixes state :: "'doc DocumentsState"
  shows "removeFavorite (\<lambda>d. Inr r) documentId state
           = (Inr (), state\<lparr>favorites := removeAll documentId (favorites state)\<rparr>)
       \<and> documentId \<notin> set (favorites (snd (removeFavorite (\<lambda>d. Inr r) documentId state)))
       \<and> documents (snd (removeFavorite (\<lambda>d. Inr r) documentId state)) = documents state
       \<and> loading (snd (removeFavorite (\<lambda>d. Inr r) documentId state)) = loading state
       \<and> error (snd (removeFavorite (\<lambda>d. Inr r) documentId state)) = error state
       \<and> fst (addFavorite (\<lambda>d n. Inr r') documentId notes state) = Inr ()
       \<and> favorites (snd (addFavorite (\<lambda>d n. Inr r') documentId notes state))
           = favorites state @ [documentId]
       \<and> documents (snd (addFavorite (\<lambda>d n. Inr r') documentId notes state)) = documents state
       \<and> favorites (snd (addFavorite (\<lambda>d n. Inr r') documentId notes'
            (snd (addFavorite (\<lambda>d n. Inr r') documentId notes state))))
           = favorites state @ [documentId, documentId]
       \<and> count_list (favorites (snd (addFavorite (\<lambda>d n. Inr r') documentId notes'
            (snd (addFavorite (\<lambda>d n. Inr r') documentId notes state))))) documentId
           = count_list (favorites state) documentId + 2"
proof -
  have flt: "filter (\<lambda>id. id \<noteq> documentId) xs = removeAll documentId xs" for xs
    by (induction xs) auto
  show ?thesis
    by (simp add: removeFavorite_def addFavorite_def flt)
qed


section \<open>Properties of the search store\<close>

text \<open>
  C8. Error atomicity of \<open>search\<close>. When the API call of an invocation
  \<open>search(query, filters, page, sort)\<close> fails, the state after it has \<open>results\<close>,
  \<open>total\<close>, \<open>facets\<close> and \<open>took_ms\<close> of the state before it, \<open>loading\<close> false,
  \<open>error\<close> the failure's message (\<open>'Search failed'\<close> for a failure that carries no
  message), and \<open>query\<close>, \<open>filters\<close> and \<open>page\<close> the arguments.
\<close>

theorem search_failure_atomic:
  fixes state :: "'doc SearchState"
  shows "search (\<lambda>request. Inl e) q fs p srt state
           = state\<lparr>query := q, filters := fs, page := p, search_loading := False,
               search_error := Some (message_or e ''Search failed'')\<rparr>
       \<and> results (search (\<lambda>request. Inl e) q fs p srt state) = results state
       \<and> total (search (\<lambda>request. Inl e) q fs p srt state) = total state
       \<and> facets (search (\<lambda>request. Inl e) q fs p srt state) = facets state
       \<and> took_ms (search (\<lambda>request. Inl e) q fs p srt state) = took_ms state
       \<and> search_loading (search (\<lambda>request. Inl e) q fs p srt state) = False
       \<and> search_error (search (\<lambda>request. Inl e) q fs p srt state)
           = Some (message_or e ''Search failed'')
       \<and> message_or (Thrown (Some (c # cs))) ''Search failed'' = c # cs
       \<and> query (search (\<lambda>request. Inl e) q fs p srt state) = q
       \<and> filters (search (\<lambda>request. Inl e) q fs p srt state) = fs
       \<and> page (search (\<lambda>request. Inl e) q fs p srt state) = p"
  by (simp add: search_def search_started_def search_rejected_def message_or_def)

section \<open>Properties of the pagination component\<close>

text \<open>The loop pushes the numbers from \<open>i\<close> to \<open>hi\<close> in order.\<close>

lemma range_loop_eq: "range_loop i hi rng = rng @ map Page [i..hi]"
proof (induction i hi rng rule: range_loop.induct)
  case (1 i hi rng)
  show ?case
  proof (cases "i \<le> hi")
    case True
    with 1 show ?thesis by (subst range_loop.simps) (simp add: upto_rec1)
  next
    case False
    then show ?thesis by (subst range_loop.simps) simp
  qed
qed

lemma getPageNumbers_eq:
  "getPageNumbers c t =
     Page 1 # (if c - 2 > 2 then [Dots] else []) @ map Page [max 2 (c - 2)..min (t - 1) (c + 2)]
       @ (if c + 2 < t - 1 then [Dots] else []) @ (if t > 1 then [Page t] else [])"
  by (simp add: getPageNumbers_def range_loop_eq Let_def del: range_loop.simps)

lemma page_numbers_append: "page_numbers (xs @ ys) = page_numbers xs @ page_numbers ys"
  by (induction xs rule: page_numbers.induct) simp_all

lemma page_numbers_map: "page_numbers (map Page xs) = xs"
  by (induction xs) simp_all

lemma page_numbers_getPageNumbers:
  "page_numbers (getPageNumbers c t) =
     1 # [max 2 (c - 2)..min (t - 1) (c + 2)] @ (if t > 1 then [t] else [])"
  by (simp add: getPageNumbers_eq page_numbers_append page_numbers_map)

lemma dots_shift:
  "0 < j \<and> Suc j < length rest \<and>
     (\<exists>a b. rest ! (j - 1) = Page a \<and> rest ! Suc j = Page b \<and> a + 1 < b) \<Longrightarrow>
   0 < Suc j \<and> Suc (Suc j) < length (x # rest) \<and>
     (\<exists>a b. (x # rest) ! (Suc j - 1) = Page a \<and> (x # rest) ! Suc (Suc j) = Page b \<and> a + 1 < b)"
  by (cases j) auto

lemma dots_step:
  assumes IH: "\<And>j. dots_between_gaps rest \<Longrightarrow> j < length rest \<Longrightarrow> rest ! j = Dots \<Longrightarrow>
     0 < j \<and> Suc j < length rest \<and>
     (\<exists>a b. rest ! (j - 1) = Page a \<and> rest ! Suc j = Page b \<and> a + 1 < b)"
    and ok: "dots_between_gaps rest"
    and len: "i < length (Page a # rest)"
    and dots: "(Page a # rest) ! i = Dots"
  shows "0 < i \<and> Suc i < length (Page a # rest) \<and>
     (\<exists>a' b. (Page a # rest) ! (i - 1) = Page a' \<and> (Page a # rest) ! Suc i = Page b \<and> a' + 1 < b)"
proof (cases i)
  case 0
  with dots show ?thesis by simp
next
  case (Suc j)
  with len dots have "j < length rest" "rest ! j = Dots" by simp_all
  from IH [OF ok this] show ?thesis
    unfolding Suc by (rule dots_shift)
qed

lemma dots_nth:
  "dots_between_gaps ps \<Longrightarrow> i < length ps \<Longrightarrow> ps ! i = Dots \<Longrightarrow>
     0 < i \<and> Suc i < length ps \<and> (\<exists>a b. ps ! (i - 1) = Page a \<and> ps ! Suc i = Page b \<and> a + 1 < b)"
proof (induction ps arbitrary: i rule: dots_between_gaps.induct)
  case 1
  then show ?case by simp
next
  case (2 rest)
  then show ?case by simp
next
  case (3 a)
  then show ?case by simp
next
  case (4 a b rest)
  from "4.prems"(1) have ok: "dots_between_gaps (Page b # rest)" by simp
  show ?case by (rule dots_step [OF "4.IH" ok "4.prems"(2,3)])
next
  case (5 a)
  then show ?case by simp
next
  case (6 a rest)
  then show ?case by simp
next
  case (7 a b rest)
  from "7.prems"(1) have gap: "a + 1 < b" and ok: "dots_between_gaps (Page b # rest)"
    by simp_all
  show ?case
  proof (cases i)
    case 0
    with "7.prems"(3) show ?thesis by simp
  next
    case (Suc j)
    show ?thesis
    proof (cases j)
      case 0
      with Suc gap show ?thesis by simp
    next
      case (Suc k)
      with \<open>i = Suc j\<close> "7.prems" have "k < length (Page b # rest)" "(Page b # rest) ! k = Dots"
        by simp_all
      from "7.IH" [OF ok this]
      have "0 < Suc k \<and> Suc (Suc k) < length (Dots # Page b # rest) \<and>
         (\<exists>a' b'. (Dots # Page b # rest) ! (Suc k - 1) = Page a' \<and>
            (Dots # Page b # rest) ! Suc (Suc k) = Page b' \<and> a' + 1 < b')"
        by (rule dots_shift)
      with Suc \<open>i = Suc j\<close> show ?thesis by simp
    qed
  qed
qed

lemma dots_pages:
  "dots_between_gaps (Page a # map Page xs @ rest) = dots_between_gaps (Page (last (a # xs)) # rest)"
proof (induction xs arbitrary: a)
  case Nil
  show ?case by simp
next
  case (Cons x xs)
  have "dots_between_gaps (Page a # map Page (x # xs) @ rest)
        = dots_between_gaps (Page x # map Page xs @ rest)"
    by simp
  with Cons [of x] show ?case by simp
qed

lemma last_Cons_upto: "lo \<le> hi \<Longrightarrow> last (a # [lo..hi]) = hi"
  by (simp add: upto_rec2)

lemma dots_getPageNumbers:
  assumes "1 \<le> c" and "c \<le> t"
  shows "dots_between_gaps (getPageNumbers c t)"
proof -
  let ?lo = "max 2 (c - 2)" and ?hi = "min (t - 1) (c + 2)"
  let ?tail = "(if c + 2 < t - 1 then [Dots] else []) @ (if t > 1 then [Page t] else [])"
  have tail: "dots_between_gaps (Page h # ?tail)" if "c + 2 < t - 1 \<Longrightarrow> h = c + 2" for h
    using that assms by simp
  show ?thesis
  proof (cases "c - 2 > 2")
    case True
    with assms have le: "c - 2 \<le> ?hi" and lo: "?lo = c - 2" by simp_all
    have hi: "c + 2 < t - 1 \<Longrightarrow> ?hi = c + 2" by simp
    have "[?lo..?hi] = (c - 2) # [c - 2 + 1..?hi]"
      unfolding lo by (rule upto_rec1 [OF le])
    then have "getPageNumbers c t = Page 1 # Dots # Page (c - 2) # map Page [c - 2 + 1..?hi] @ ?tail"
      using True by (simp only: getPageNumbers_eq if_True list.map append.simps)
    moreover have "last ((c - 2) # [c - 2 + 1..?hi]) = ?hi"
      using last_Cons_upto [OF le, of 0] by (simp only: upto_rec1 [OF le] last.simps list.simps if_False)
    ultimately show ?thesis
      using True tail [of ?hi, OF hi] by (simp only: dots_between_gaps.simps dots_pages) simp
  next
    case False
    show ?thesis
    proof (cases "c + 2 < t - 1")
      case dots: True
      with assms have le: "?lo \<le> ?hi" by simp
      have l: "last (1 # [?lo..?hi]) = ?hi"
        by (rule last_Cons_upto [OF le])
      have t: "dots_between_gaps (Page ?hi # ?tail)"
        by (rule tail) simp
      have eq: "getPageNumbers c t = Page 1 # map Page [?lo..?hi] @ ?tail"
        using False by (simp add: getPageNumbers_eq)
      show ?thesis
        unfolding eq dots_pages l by (rule t)
    next
      case nodots: False
      have "getPageNumbers c t = Page 1 # map Page [?lo..?hi] @ (if t > 1 then [Page t] else [])"
        using False nodots by (simp add: getPageNumbers_eq)
      then show ?thesis
        by (simp only: dots_pages) simp
    qed
  qed
qed

text \<open>
  C10. For integers with \<open>1 \<le> currentPage \<le> totalPages\<close>, the numeric entries of
  \<open>getPageNumbers currentPage totalPages\<close> are strictly increasing, hence pairwise
  distinct, and all lie in \<open>[1, totalPages]\<close>; the first entry is page 1; the last
  entry is \<open>totalPages\<close> when \<open>totalPages > 1\<close>; and every \<open>'...'\<close> entry stands
  directly between two page numbers \<open>a\<close> and \<open>b\<close> that are not adjacent (\<open>a + 1 < b\<close>).
\<close>

theorem getPageNumbers_shape:
  assumes "1 \<le> currentPage" and "currentPage \<le> totalPages"
  shows "sorted_wrt (<) (page_numbers (getPageNumbers currentPage totalPages))
       \<and> distinct (page_numbers (getPageNumbers currentPage totalPages))
       \<and> (\<forall>n \<in> set (page_numbers (getPageNumbers currentPage totalPages)). 1 \<le> n \<and> n \<le> totalPages)
       \<and> getPageNumbers currentPage totalPages \<noteq> []
       \<and> hd (getPageNumbers currentPage totalPages) = Page 1
       \<and> (1 < totalPages \<longrightarrow> last (getPageNumbers currentPage totalPages) = Page totalPages)
       \<and> (\<forall>i < length (getPageNumbers currentPage totalPages).
            getPageNumbers currentPage totalPages ! i = Dots \<longrightarrow>
              0 < i \<and> Suc i < length (getPageNumbers currentPage totalPages) \<and>
              (\<exists>a b. getPageNumbers currentPage totalPages ! (i - 1) = Page a \<and>
                     getPageNumbers currentPage totalPages ! Suc i = Page b \<and> a + 1 < b))"
proof -
  let ?ps = "getPageNumbers currentPage totalPages"
  have sorted: "sorted_wrt (<) (page_numbers ?ps)"
    using assms by (auto simp: page_numbers_getPageNumbers sorted_wrt_append)
  have dist: "distinct (page_numbers ?ps)"
    using assms by (auto simp: page_numbers_getPageNumbers)
  have bounds: "\<forall>n \<in> set (page_numbers ?ps). 1 \<le> n \<and> n \<le> totalPages"
    using assms by (auto simp: page_numbers_getPageNumbers)
  have first: "?ps \<noteq> [] \<and> hd ?ps = Page 1"
    by (simp add: getPageNumbers_eq)
  have lst: "1 < totalPages \<longrightarrow> last ?ps = Page totalPages"
    by (simp add: getPageNumbers_eq)
  have dots: "\<forall>i < length ?ps. ?ps ! i = Dots \<longrightarrow>
       0 < i \<and> Suc i < length ?ps \<and>
       (\<exists>a b. ?ps ! (i - 1) = Page a \<and> ?ps ! Suc i = Page b \<and> a + 1 < b)"
    using dots_nth [OF dots_getPageNumbers [OF assms]] by blast
  from sorted dist bounds first lst dots show ?thesis by blast
qed

theorem getPageNumbers_shape_witness:
  "(1::int) \<le> 6 \<and> (6::int) \<le> 12
   \<and> getPageNumbers 6 12
       = [Page 1, Dots, Page 4, Page 5, Page 6, Page 7, Page 8, Dots, Page 12]
   \<and> sorted_wrt (<) (page_numbers (getPageNumbers 6 12))
   \<and> distinct (page_numbers (getPageNumbers 6 12))
   \<and> hd (getPageNumbers 6 12) = Page 1
   \<and> last (getPageNumbers 6 12) = Page 12"
proof -
  have ev: "getPageNumbers 6 12
      = [Page 1, Dots, Page 4, Page 5, Page 6, Page 7, Page 8, Dots, Page 12]"
    by code_simp
  from getPageNumbers_shape [of 6 12] show ?thesis
    unfolding ev by simp
qed

section \<open>Properties of the API client\<close>

text \<open>
  C7 as stated fails: a 403 response and a 500 response with the same \<open>detail\<close> in
  the body are rejected with the same error, so the error tells a blocked response
  from no other failure; and a 2xx response whose body is not JSON is rejected too.
\<close>

theorem handleResponse_blocked_counterexample:
  "handleResponse \<lparr>status = 403, statusText = ''Forbidden'',
       body = Some (JObject [(''detail'', JString ''Request failed'')])\<rparr>
     = Inl (Error (JString ''Request failed''))
   \<and> handleResponse \<lparr>status = 500, statusText = ''Internal Server Error'',
       body = Some (JObject [(''detail'', JString ''Request failed'')])\<rparr>
     = Inl (Error (JString ''Request failed''))
   \<and> handleResponse \<lparr>status = 200, statusText = ''OK'', body = None\<rparr> = Inl SyntaxError"
  by (simp add: handleResponse_def ok_def)

text \<open>
  C7, amended. \<open>handleResponse\<close> rejects exactly when the status is not 2xx or the
  body is not JSON. A 2xx response resolves to its parsed body, and rejects with the
  parser's \<open>SyntaxError\<close> when the body is not JSON. On a status that is not 2xx: a
  body that is JSON \<open>null\<close> rejects with a \<open>TypeError\<close>; a body with a truthy
  \<open>detail\<close> rejects with \<open>Error(detail)\<close>, the same error for every such status; a
  body that is not JSON rejects with \<open>Error(statusText)\<close>, and with
  \<open>Error('HTTP <status>: ')\<close> when the status text is empty; every other body rejects
  with \<open>Error('HTTP <status>: <statusText>')\<close>. The error is a message and no more: only
  the last two messages name the status, and nothing marks a blocked response.
\<close>

theorem handleResponse_rejects:
  "isl (handleResponse response) = (\<not> ok response \<or> body response = None)
   \<and> (ok response \<and> body response = Some payload \<longrightarrow> handleResponse response = Inr payload)
   \<and> (ok response \<and> body response = None \<longrightarrow> handleResponse response = Inl SyntaxError)
   \<and> (\<not> ok response \<and> body response = Some v \<and> (v = JNull \<or> v = JUndefined)
        \<longrightarrow> handleResponse response = Inl TypeError)
   \<and> (\<not> ok response \<and> body response = Some v \<and> get_detail v = Inr detail \<and> truthy detail
        \<longrightarrow> handleResponse response = Inl (Error detail)
          \<and> (\<forall>other. \<not> ok other \<and> body other = Some v
                \<longrightarrow> handleResponse other = handleResponse response))
   \<and> (\<not> ok response \<and> body response = Some v \<and> get_detail v = Inr detail \<and> \<not> truthy detail
        \<longrightarrow> handleResponse response
            = Inl (Error (JString (''HTTP '' @ show_nat (status response) @ '': ''
                                   @ statusText response))))
   \<and> (\<not> ok response \<and> body response = None \<and> statusText response \<noteq> []
        \<longrightarrow> handleResponse response = Inl (Error (JString (statusText response))))
   \<and> (\<not> ok response \<and> body response = None \<and> statusText response = []
        \<longrightarrow> handleResponse response
            = Inl (Error (JString (''HTTP '' @ show_nat (status response) @ '': ''))))
   \<and> (\<exists>detail. get_detail v = Inr detail) = (v \<noteq> JNull \<and> v \<noteq> JUndefined)
   \<and> get_detail (JObject members)
       = Inr (case map_of (rev members) ''detail'' of None \<Rightarrow> JUndefined | Some d \<Rightarrow> d)
   \<and> ((\<forall>members. v \<noteq> JObject members) \<and> v \<noteq> JNull \<and> v \<noteq> JUndefined
        \<longrightarrow> get_detail v = Inr JUndefined)"
proof -
  have parts: "(\<exists>detail. get_detail v = Inr detail) = (v \<noteq> JNull \<and> v \<noteq> JUndefined)"
    by (cases v) simp_all
  have plain: "(\<forall>members. v \<noteq> JObject members) \<and> v \<noteq> JNull \<and> v \<noteq> JUndefined
      \<longrightarrow> get_detail v = Inr JUndefined"
    by (cases v) simp_all
  have null: "\<not> ok response \<and> body response = Some v \<and> (v = JNull \<or> v = JUndefined)
      \<longrightarrow> handleResponse response = Inl TypeError"
    by (auto simp: handleResponse_def)
  have rest: "isl (handleResponse response) = (\<not> ok response \<or> body response = None)
   \<and> (ok response \<and> body response = Some payload \<longrightarrow> handleResponse response = Inr payload)
   \<and> (ok response \<and> body response = None \<longrightarrow> handleResponse response = Inl SyntaxError)
   \<and> (\<not> ok response \<and> body response = Some v \<and> get_detail v = Inr detail \<and> truthy detail
        \<longrightarrow> handleResponse response = Inl (Error detail)
          \<and> (\<forall>other. \<not> ok other \<and> body other = Some v
                \<longrightarrow> handleResponse other = handleResponse response))
   \<and> (\<not> ok response \<and> body response = Some v \<and> get_detail v = Inr detail \<and> \<not> truthy detail
        \<longrightarrow> handleResponse response
            = Inl (Error (JString (''HTTP '' @ show_nat (status response) @ '': ''
                                   @ statusText response))))
   \<and> (\<not> ok response \<and> body response = None \<and> statusText response \<noteq> []
        \<longrightarrow> handleResponse response = Inl (Error (JString (statusText response))))
   \<and> (\<not> ok response \<and> body response = None \<and> statusText response = []
        \<longrightarrow> handleResponse response
            = Inl (Error (JString (''HTTP '' @ show_nat (status response) @ '': ''))))"
    by (auto simp: handleResponse_def Let_def split: option.splits sum.splits)
  have obj: "get_detail (JObject members)
       = Inr (case map_of (rev members) ''detail'' of None \<Rightarrow> JUndefined | Some d \<Rightarrow> d)"
    by simp
  from rest null parts plain obj show ?thesis
    by (elim conjE, intro conjI) assumption+
qed

theorem handleResponse_rejects_witness:
  "handleResponse \<lparr>status = 429, statusText = ''Too Many Requests'',
         body = Some (JObject [(''detail'', JString ''Slow down'')])\<rparr>
       = Inl (Error (JString ''Slow down''))
   \<and> handleResponse \<lparr>status = 502, statusText = ''Bad Gateway'', body = Some (JObject [])\<rparr>
       = Inl (Error (JString ''HTTP 502: Bad Gateway''))
   \<and> handleResponse \<lparr>status = 403, statusText = ''Forbidden'', body = Some JNull\<rparr>
       = Inl TypeError
   \<and> handleResponse \<lparr>status = 503, statusText = ''Service Unavailable'', body = None\<rparr>
       = Inl (Error (JString ''Service Unavailable''))
   \<and> handleResponse \<lparr>status = 503, statusText = '''', body = None\<rparr>
       = Inl (Error (JString ''HTTP 503: ''))
   \<and> handleResponse \<lparr>status = 204, statusText = ''No Content'', body = None\<rparr>
       = Inl SyntaxError
   \<and> handleResponse \<lparr>status = 200, statusText = ''OK'', body = Some (JArray [JNumber 1])\<rparr>
       = Inr (JArray [JNumber 1])"
proof -
  let ?blocked = "\<lparr>status = 429, statusText = ''Too Many Requests'',
    body = Some (JObject [(''detail'', JString ''Slow down'')])\<rparr>"
  let ?bad = "\<lparr>status = 502, statusText = ''Bad Gateway'', body = Some (JObject [])\<rparr>"
  let ?null = "\<lparr>status = 403, statusText = ''Forbidden'', body = Some JNull\<rparr>"
  let ?down = "\<lparr>status = 503, statusText = ''Service Unavailable'', body = None\<rparr>"
  let ?bare = "\<lparr>status = 503, statusText = '''', body = None\<rparr>"
  let ?empty = "\<lparr>status = 204, statusText = ''No Content'', body = None\<rparr>"
  let ?good = "\<lparr>status = 200, statusText = ''OK'', body = Some (JArray [JNumber 1])\<rparr>"
  have d502: "show_nat 502 = ''502''" by code_simp
  have d503: "show_nat 503 = ''503''" by code_simp
  from handleResponse_rejects [where response = ?blocked
      and v = "JObject [(''detail'', JString ''Slow down'')]" and detail = "JString ''Slow down''"]
  have a: "handleResponse ?blocked = Inl (Error (JString ''Slow down''))"
    by (simp add: ok_def)
  from handleResponse_rejects [where response = ?bad and v = "JObject []" and detail = JUndefined]
  have b: "handleResponse ?bad = Inl (Error (JString ''HTTP 502: Bad Gateway''))"
    by (simp add: ok_def d502)
  from handleResponse_rejects [where response = ?null and v = JNull]
  have c: "handleResponse ?null = Inl TypeError"
    by (simp add: ok_def)
  from handleResponse_rejects [where response = ?down]
  have d: "handleResponse ?down = Inl (Error (JString ''Service Unavailable''))"
    by (simp add: ok_def)
  from handleResponse_rejects [where response = ?bare]
  have e: "handleResponse ?bare = Inl (Error (JString ''HTTP 503: ''))"
    by (simp add: ok_def d503)
  from handleResponse_rejects [where response = ?empty]
  have f: "handleResponse ?empty = Inl SyntaxError"
    by (simp add: ok_def)
  from handleResponse_rejects [where response = ?good and payload = "JArray [JNumber 1]"]
  have g: "handleResponse ?good = Inr (JArray [JNumber 1])"
    by (simp add: ok_def)
  from a b c d e f g show ?thesis by simp
qed

section \<open>Properties of the anti-bot retry\<close>

declare scrape_loop.simps [simp del]

text \<open>The loop makes no more calls of \<open>_fetch\<close> than \<open>max_retries\<close>, and none fewer than it has made.\<close>

lemma scrape_loop_attempts:
  "int attempt \<le> max_retries \<Longrightarrow> int (snd (scrape_loop fetch max_retries attempt)) \<le> max_retries"
proof (induction fetch max_retries attempt rule: scrape_loop.induct)
  case (1 fetch max_retries attempt)
  show ?case
  proof (cases "int attempt < max_retries")
    case False
    with "1.prems" show ?thesis by (subst scrape_loop.simps) simp
  next
    case True
    then have next_le: "int (attempt + 1) \<le> max_retries" by simp
    show ?thesis
    proof (cases "fetch attempt")
      case (Fetched response)
      with True next_le "1.IH"(1) [OF True Fetched] show ?thesis
        by (subst scrape_loop.simps) simp
    next
      case ClientError
      with True next_le "1.IH"(2) [OF True ClientError] show ?thesis
        by (subst scrape_loop.simps) simp
    next
      case OtherError
      with True show ?thesis by (subst scrape_loop.simps) simp
    qed
  qed
qed

lemma scrape_loop_attempts_ge:
  "attempt \<le> snd (scrape_loop fetch max_retries attempt)"
proof (induction fetch max_retries attempt rule: scrape_loop.induct)
  case (1 fetch max_retries attempt)
  show ?case
  proof (cases "int attempt < max_retries")
    case False
    then show ?thesis by (subst scrape_loop.simps) simp
  next
    case True
    show ?thesis
    proof (cases "fetch attempt")
      case (Fetched response)
      with True "1.IH"(1) [OF True Fetched] show ?thesis
        by (subst scrape_loop.simps) (auto simp: le_Suc_eq)
    next
      case ClientError
      with True "1.IH"(2) [OF True ClientError] show ?thesis
        by (subst scrape_loop.simps) (auto simp: le_Suc_eq)
    next
      case OtherError
      with True show ?thesis by (subst scrape_loop.simps) simp
    qed
  qed
qed


text \<open>One iteration of the loop, by the outcome of its call of \<open>_fetch\<close>.\<close>

lemma scrape_loop_returns:
  "int attempt < max_retries \<Longrightarrow> fetch attempt = Fetched response \<Longrightarrow> \<not> is_blocked response \<Longrightarrow>
     scrape_loop fetch max_retries attempt = (Returned response, attempt + 1)"
  by (subst scrape_loop.simps) simp

lemma scrape_loop_raises:
  "int attempt < max_retries \<Longrightarrow> fetch attempt = OtherError \<Longrightarrow>
     scrape_loop fetch max_retries attempt = (Raised OtherError, attempt + 1)"
  by (subst scrape_loop.simps) simp

lemma scrape_loop_retries:
  "int attempt + 1 < max_retries \<Longrightarrow>
     fetch attempt = ClientError \<or> (\<exists>r. fetch attempt = Fetched r \<and> is_blocked r) \<Longrightarrow>
     scrape_loop fetch max_retries attempt = scrape_loop fetch max_retries (attempt + 1)"
  by (subst scrape_loop.simps) auto

lemma retried_iff:
  "retried outcome = (outcome = ClientError \<or> (\<exists>r. outcome = Fetched r \<and> is_blocked r))"
  by (cases outcome) (simp_all add: retried_def)

text \<open>
  Over a stretch of attempts that are all retried and leave an attempt to come, the
  loop moves on to that attempt.
\<close>

lemma scrape_loop_skip:
  assumes "int k < max_retries" and "attempt \<le> k"
    and "\<forall>j. attempt \<le> j \<and> j < k \<longrightarrow> retried (fetch j)"
  shows "scrape_loop fetch max_retries attempt = scrape_loop fetch max_retries k"
  using assms(2,3)
proof (induction "k - attempt" arbitrary: attempt)
  case 0
  then show ?case by simp
next
  case (Suc d)
  then have lt: "attempt < k" by simp
  with Suc.prems(2) have "retried (fetch attempt)" by simp
  then have again: "fetch attempt = ClientError \<or> (\<exists>r. fetch attempt = Fetched r \<and> is_blocked r)"
    by (simp add: retried_iff)
  from lt assms(1) have "int attempt + 1 < max_retries" by simp
  then have "scrape_loop fetch max_retries attempt = scrape_loop fetch max_retries (attempt + 1)"
    using again by (rule scrape_loop_retries [where fetch = fetch])
  also have "\<dots> = scrape_loop fetch max_retries k"
  proof (rule Suc.hyps(1))
    show "d = k - (attempt + 1)" using Suc.hyps(2) by simp
    show "attempt + 1 \<le> k" using lt by simp
    show "\<forall>j. attempt + 1 \<le> j \<and> j < k \<longrightarrow> retried (fetch j)" using Suc.prems(2) by simp
  qed
  finally show ?case .
qed

lemma scrape_loop_last_client_error:
  "int attempt = max_retries - 1 \<Longrightarrow> fetch attempt = ClientError \<Longrightarrow>
     scrape_loop fetch max_retries attempt = (Raised ClientError, attempt + 1)"
  by (subst scrape_loop.simps) simp

lemma scrape_loop_done:
  "\<not> int attempt < max_retries \<Longrightarrow>
     scrape_loop fetch max_retries attempt = (ReturnedNone, attempt)"
  by (subst scrape_loop.simps) simp

lemma scrape_loop_last_blocked:
  "int attempt = max_retries - 1 \<Longrightarrow> fetch attempt = Fetched r \<Longrightarrow> is_blocked r \<Longrightarrow>
     snd (scrape_loop fetch max_retries attempt) = attempt + 1"
  by (subst scrape_loop.simps) (simp add: scrape_loop_done)

lemma scrape_loop_all_retried:
  assumes "0 \<le> max_retries" and "\<forall>j. int j < max_retries \<longrightarrow> retried (fetch j)"
  shows "snd (scrape_loop fetch max_retries 0) = nat max_retries"
proof (cases "max_retries = 0")
  case True
  then show ?thesis by (simp add: scrape_loop_done)
next
  case False
  define k where "k = nat max_retries - 1"
  from False assms(1) have k: "int k = max_retries - 1" and k1: "k + 1 = nat max_retries"
    unfolding k_def by simp_all
  then have lt: "int k < max_retries" by simp
  have "\<forall>j. 0 \<le> j \<and> j < k \<longrightarrow> retried (fetch j)"
    using assms(2) lt by simp
  with lt have skip: "scrape_loop fetch max_retries 0 = scrape_loop fetch max_retries k"
    by (intro scrape_loop_skip) simp_all
  from assms(2) lt have "retried (fetch k)" by simp
  then consider "fetch k = ClientError" | r where "fetch k = Fetched r" "is_blocked r"
    by (auto simp: retried_iff)
  then have "snd (scrape_loop fetch max_retries k) = k + 1"
  proof cases
    case 1
    from k 1 have "scrape_loop fetch max_retries k = (Raised ClientError, k + 1)"
      by (rule scrape_loop_last_client_error [where fetch = fetch])
    then show ?thesis by simp
  next
    case 2
    from k 2 show ?thesis
      by (rule scrape_loop_last_blocked [where fetch = fetch])
  qed
  with skip k1 show ?thesis by simp
qed

lemma scrape_loop_runs:
  assumes "int attempt < max_retries"
  shows "attempt + 1 \<le> snd (scrape_loop fetch max_retries attempt)"
proof (cases "fetch attempt")
  case (Fetched response)
  with assms scrape_loop_attempts_ge [of "attempt + 1" fetch max_retries] show ?thesis
    by (subst scrape_loop.simps) simp
next
  case ClientError
  with assms scrape_loop_attempts_ge [of "attempt + 1" fetch max_retries] show ?thesis
    by (subst scrape_loop.simps) simp
next
  case OtherError
  with assms show ?thesis by (subst scrape_loop.simps) simp
qed

text \<open>
  C3 as stated fails: answered with 403 every time, which the claim counts as fatal,
  \<open>scrape_with_retry\<close> calls \<open>_fetch\<close> three times; answered with 500, which the claim
  counts as transient, it returns the response after one call.
\<close>

theorem scrape_with_retry_counterexample:
  "scrape_with_retry always_forbidden 3 = (ReturnedNone, 3)
   \<and> scrape_with_retry always_server_error 3
       = (Returned \<lparr>resp_status = 500, resp_url_path = ''/search''\<rparr>, 1)"
  by (simp add: scrape_with_retry_def scrape_loop.simps always_forbidden_def
      always_server_error_def is_blocked_def lower_def lower_char_def)

text \<open>
  C3, amended. \<open>scrape_with_retry\<close> calls \<open>_fetch\<close> at most \<open>max_retries\<close> times, three
  by default. After a \<open>ClientError\<close> or a blocked response (status 403, status 429, or
  \<open>captcha\<close> in the path of the URL) it makes another attempt while attempts remain.
  The first response that is not blocked, a 401 or a 5xx among them, is returned at
  once, and the first exception that is no \<open>ClientError\<close> is raised at once, with no
  further attempt. A \<open>ClientError\<close> in the last attempt is raised again. When every
  attempt is blocked or raises a \<open>ClientError\<close>, \<open>max_retries\<close> attempts are made.
\<close>

theorem scrape_with_retry_attempts:
  "int (snd (scrape_with_retry fetch max_retries)) \<le> max 0 max_retries
   \<and> snd (scrape_with_retry_default fetch) \<le> 3
   \<and> (int k < max_retries \<and> (\<forall>j<k. retried (fetch j))
        \<and> fetch k = Fetched response \<and> \<not> is_blocked response
        \<longrightarrow> scrape_with_retry fetch max_retries = (Returned response, k + 1))
   \<and> (int k < max_retries \<and> (\<forall>j<k. retried (fetch j)) \<and> fetch k = OtherError
        \<longrightarrow> scrape_with_retry fetch max_retries = (Raised OtherError, k + 1))
   \<and> (int k = max_retries - 1 \<and> (\<forall>j<k. retried (fetch j)) \<and> fetch k = ClientError
        \<longrightarrow> scrape_with_retry fetch max_retries = (Raised ClientError, k + 1))
   \<and> (0 \<le> max_retries \<and> (\<forall>j. int j < max_retries \<longrightarrow> retried (fetch j))
        \<longrightarrow> snd (scrape_with_retry fetch max_retries) = nat max_retries)
   \<and> (1 < max_retries \<and> retried (fetch 0) \<longrightarrow> 2 \<le> snd (scrape_with_retry fetch max_retries))
   \<and> retried outcome = (outcome = ClientError \<or> (\<exists>r. outcome = Fetched r \<and> is_blocked r))
   \<and> is_blocked response
       = (resp_status response = 403 \<or> resp_status response = 429
          \<or> contains ''captcha'' (lower (resp_url_path response)))"
proof -
  have bound: "int (snd (scrape_with_retry fetch m)) \<le> max 0 m" for m
  proof (cases "0 \<le> m")
    case True
    then show ?thesis
      unfolding scrape_with_retry_def using scrape_loop_attempts [of 0 m fetch] by simp
  next
    case False
    then show ?thesis
      unfolding scrape_with_retry_def by (subst scrape_loop.simps) simp
  qed
  have dflt: "snd (scrape_with_retry_default fetch) \<le> 3"
    using bound [of 3] unfolding scrape_with_retry_default_def by simp
  have skip: "scrape_with_retry fetch max_retries = scrape_loop fetch max_retries k"
    if "int k < max_retries" and "\<forall>j<k. retried (fetch j)"
  proof -
    from that(2) have "\<forall>j. 0 \<le> j \<and> j < k \<longrightarrow> retried (fetch j)" by simp
    with that(1) show ?thesis
      unfolding scrape_with_retry_def by (intro scrape_loop_skip) simp_all
  qed
  have ret: "int k < max_retries \<and> (\<forall>j<k. retried (fetch j))
        \<and> fetch k = Fetched response \<and> \<not> is_blocked response
        \<longrightarrow> scrape_with_retry fetch max_retries = (Returned response, k + 1)"
    using skip scrape_loop_returns [of k max_retries fetch response] by simp
  have rais: "int k < max_retries \<and> (\<forall>j<k. retried (fetch j)) \<and> fetch k = OtherError
        \<longrightarrow> scrape_with_retry fetch max_retries = (Raised OtherError, k + 1)"
    using skip scrape_loop_raises [of k max_retries fetch] by simp
  have last: "int k = max_retries - 1 \<and> (\<forall>j<k. retried (fetch j)) \<and> fetch k = ClientError
        \<longrightarrow> scrape_with_retry fetch max_retries = (Raised ClientError, k + 1)"
  proof
    assume h: "int k = max_retries - 1 \<and> (\<forall>j<k. retried (fetch j)) \<and> fetch k = ClientError"
    then have "int k < max_retries" by simp
    from skip [OF this] h scrape_loop_last_client_error [of k max_retries fetch]
    show "scrape_with_retry fetch max_retries = (Raised ClientError, k + 1)" by simp
  qed
  have every: "0 \<le> max_retries \<and> (\<forall>j. int j < max_retries \<longrightarrow> retried (fetch j))
        \<longrightarrow> snd (scrape_with_retry fetch max_retries) = nat max_retries"
    unfolding scrape_with_retry_def using scrape_loop_all_retried [of max_retries fetch] by blast
  have again: "1 < max_retries \<and> retried (fetch 0) \<longrightarrow> 2 \<le> snd (scrape_with_retry fetch max_retries)"
  proof
    assume h: "1 < max_retries \<and> retried (fetch 0)"
    then have "int 0 + 1 < max_retries"
      and "fetch 0 = ClientError \<or> (\<exists>r. fetch 0 = Fetched r \<and> is_blocked r)"
      by (simp_all add: retried_iff)
    then have "scrape_loop fetch max_retries 0 = scrape_loop fetch max_retries (0 + 1)"
      by (rule scrape_loop_retries [where fetch = fetch])
    moreover from h have "0 + 1 + 1 \<le> snd (scrape_loop fetch max_retries (0 + 1))"
      by (intro scrape_loop_runs) simp
    ultimately show "2 \<le> snd (scrape_with_retry fetch max_retries)"
      unfolding scrape_with_retry_def by simp
  qed
  have blocked: "is_blocked response
       = (resp_status response = 403 \<or> resp_status response = 429
          \<or> contains ''captcha'' (lower (resp_url_path response)))"
    by (simp add: is_blocked_def)
  from bound dflt ret rais last every again retried_iff [of outcome] blocked show ?thesis
    by blast
qed

theorem scrape_with_retry_attempts_witness:
  "scrape_with_retry always_server_error 3
     = (Returned \<lparr>resp_status = 500, resp_url_path = ''/search''\<rparr>, 1)
   \<and> scrape_with_retry blocked_then_good 3
     = (Returned \<lparr>resp_status = 200, resp_url_path = ''/search''\<rparr>, 2)
   \<and> scrape_with_retry always_other_error 3 = (Raised OtherError, 1)
   \<and> scrape_with_retry blocked_then_client_error 3 = (Raised ClientError, 3)
   \<and> scrape_with_retry always_client_error 3 = (Raised ClientError, 3)
   \<and> snd (scrape_with_retry always_forbidden 3) = 3
   \<and> 2 \<le> snd (scrape_with_retry always_forbidden 3)"
proof -
  let ?r500 = "\<lparr>resp_status = 500, resp_url_path = ''/search''\<rparr>"
  let ?r200 = "\<lparr>resp_status = 200, resp_url_path = ''/search''\<rparr>"
  have free500: "\<not> is_blocked ?r500"
    by (simp add: is_blocked_def lower_def lower_char_def)
  have free200: "\<not> is_blocked ?r200"
    by (simp add: is_blocked_def lower_def lower_char_def)
  have first: "\<forall>j<1. retried (blocked_then_good j)"
    by (simp add: blocked_then_good_def retried_def is_blocked_def)
  have two: "\<forall>j<2. retried (blocked_then_client_error j)"
    by (simp add: blocked_then_client_error_def retried_def is_blocked_def)
  have errs: "\<forall>j<2. retried (always_client_error j)"
    by (simp add: always_client_error_def retried_def)
  have all: "\<forall>j. int j < 3 \<longrightarrow> retried (always_forbidden j)"
    by (simp add: always_forbidden_def retried_def is_blocked_def)
  from scrape_with_retry_attempts
    [where fetch = always_server_error and max_retries = 3 and k = 0 and response = ?r500]
    free500
  have a: "scrape_with_retry always_server_error 3 = (Returned ?r500, 1)"
    by (simp add: always_server_error_def)
  from scrape_with_retry_attempts
    [where fetch = blocked_then_good and max_retries = 3 and k = 1 and response = ?r200]
    free200 first
  have b: "scrape_with_retry blocked_then_good 3 = (Returned ?r200, 2)"
    by (simp add: blocked_then_good_def)
  from scrape_with_retry_attempts
    [where fetch = always_other_error and max_retries = 3 and k = 0]
  have c: "scrape_with_retry always_other_error 3 = (Raised OtherError, 1)"
    by (simp add: always_other_error_def)
  from scrape_with_retry_attempts
    [where fetch = blocked_then_client_error and max_retries = 3 and k = 2] two
  have d: "scrape_with_retry blocked_then_client_error 3 = (Raised ClientError, 3)"
    by (simp add: blocked_then_client_error_def)
  from scrape_with_retry_attempts
    [where fetch = always_client_error and max_retries = 3 and k = 2] errs
  have e: "scrape_with_retry always_client_error 3 = (Raised ClientError, 3)"
    by (simp add: always_client_error_def)
  from scrape_with_retry_attempts [where fetch = always_forbidden and max_retries = 3] all
  have f: "snd (scrape_with_retry always_forbidden 3) = 3"
    and g: "2 \<le> snd (scrape_with_retry always_forbidden 3)"
    by (simp_all add: always_forbidden_def retried_def is_blocked_def)
  from a b c d e f g show ?thesis by simp
qed

section \<open>Properties of discovery\<close>

text \<open>
  One turn of the loop: at a stopping page it returns what it has, at any other page it
  takes the page's documents and goes on to the next page.
\<close>

lemma discover_loop_stop:
  "stops_at fetch_page parse max_pages page' \<Longrightarrow>
     discover_loop fetch_page parse max_pages page' documents' = Some documents'"
  by (subst discover_loop.simps) (auto simp: stops_at_def Let_def split: sum.splits)

lemma discover_loop_step:
  "\<not> stops_at fetch_page parse max_pages page' \<Longrightarrow>
     discover_loop fetch_page parse max_pages page' documents'
       = discover_loop fetch_page parse max_pages (page' + 1)
           (documents' @ docs_of_page fetch_page parse page')"
  by (subst discover_loop.simps)
     (auto simp: stops_at_def docs_of_page_def Let_def split: sum.splits)

lemma discover_loop_first_stop:
  assumes "stops_at fetch_page parse max_pages p"
    and "\<forall>q. page' \<le> q \<and> q < p \<longrightarrow> \<not> stops_at fetch_page parse max_pages q"
    and "page' \<le> p"
  shows "discover_loop fetch_page parse max_pages page' documents'
           = Some (documents' @ concat (map (docs_of_page fetch_page parse) [page'..p - 1]))"
  using assms
proof (induction "nat (p - page')" arbitrary: page' documents')
  case 0
  then have "page' = p" by simp
  with "0.prems"(1) show ?case by (simp add: discover_loop_stop)
next
  case (Suc k)
  then have lt: "page' < p" by linarith
  with Suc.prems(2) have "\<not> stops_at fetch_page parse max_pages page'" by simp
  then have "discover_loop fetch_page parse max_pages page' documents'
      = discover_loop fetch_page parse max_pages (page' + 1)
          (documents' @ docs_of_page fetch_page parse page')"
    by (rule discover_loop_step)
  also have "\<dots> = Some ((documents' @ docs_of_page fetch_page parse page')
      @ concat (map (docs_of_page fetch_page parse) [page' + 1..p - 1]))"
  proof (rule Suc.hyps(1))
    show "k = nat (p - (page' + 1))" using Suc.hyps(2) by linarith
    show "stops_at fetch_page parse max_pages p" by (rule Suc.prems(1))
    show "\<forall>q. page' + 1 \<le> q \<and> q < p \<longrightarrow> \<not> stops_at fetch_page parse max_pages q"
      using Suc.prems(2) by simp
    show "page' + 1 \<le> p" using lt by simp
  qed
  also have "[page'..p - 1] = page' # [page' + 1..p - 1]"
    using lt by (simp add: upto_rec1)
  then have "(documents' @ docs_of_page fetch_page parse page')
      @ concat (map (docs_of_page fetch_page parse) [page' + 1..p - 1])
      = documents' @ concat (map (docs_of_page fetch_page parse) [page'..p - 1])"
    by simp
  finally show ?case .
qed

lemma first_stop_exists:
  assumes "stops_at fetch_page parse max_pages q" and "1 \<le> q"
  shows "\<exists>p\<ge>1. stops_at fetch_page parse max_pages p \<and>
           (\<forall>r. 1 \<le> r \<and> r < p \<longrightarrow> \<not> stops_at fetch_page parse max_pages r)"
proof -
  define S where "S n = stops_at fetch_page parse max_pages (1 + int n)" for n :: nat
  define L where "L = (LEAST n. S n)"
  from assms have "1 + int (nat (q - 1)) = q" by simp
  with assms(1) have "S (nat (q - 1))" unfolding S_def by simp
  then have least: "S L"
    unfolding L_def by (rule LeastI)
  have minimal: "\<not> S n" if "n < L" for n
    using that unfolding L_def by (rule not_less_Least)
  have before: "\<not> stops_at fetch_page parse max_pages r" if "1 \<le> r" and "r < 1 + int L" for r
  proof -
    from that have "nat (r - 1) < L" by linarith
    then have "\<not> S (nat (r - 1))" by (rule minimal)
    moreover from that have "1 + int (nat (r - 1)) = r" by simp
    ultimately show ?thesis unfolding S_def by simp
  qed
  have "1 \<le> 1 + int L" by simp
  moreover have "stops_at fetch_page parse max_pages (1 + int L)"
    using least unfolding S_def .
  ultimately show ?thesis using before by blast
qed


text \<open>
  C6 as stated fails: with a limit of three pages, page 1 listing a document, the
  fetch of page 2 failing and page 3 listing a document, discovery stops at page 2
  and returns the document of page 1 only, although the limit is not reached at
  page 2 and no fetched page was empty.
\<close>

theorem discover_documents_counterexample:
  "discover_documents second_page_fails titles (Some 3) = Some [''Verordening A'']
   \<and> \<not> limit_reached (Some 3) 2
   \<and> second_page_fails 1 = Inr [''Verordening A'']
   \<and> second_page_fails 2 = Inl ''HTTP 500''
   \<and> second_page_fails 3 = Inr [''Verordening B'']
   \<and> titles [''Verordening A''] \<noteq> []"
proof -
  have run: "discover_documents second_page_fails titles (Some 3) = Some [''Verordening A'']"
    unfolding discover_documents_def
    apply (subst discover_loop.simps)
    apply (simp add: limit_reached_def second_page_fails_def titles_def)
    apply (subst discover_loop.simps)
    apply (simp add: limit_reached_def second_page_fails_def titles_def)
    done
  show ?thesis
    by (simp add: run limit_reached_def second_page_fails_def titles_def)
qed

text \<open>
  C6, amended. When a page limit other than 0 is given, or some page from page 1 on
  fails to fetch or yields no document, \<open>discover_documents\<close> returns: there is a first
  page \<open>p\<close> at which the limit is reached, the fetch fails or no document is found, and
  the result is the documents of the pages 1 to \<open>p - 1\<close>, in order of the pages.
\<close>

theorem discover_documents_stops:
  assumes "(\<exists>m. max_pages = Some m \<and> m \<noteq> 0)
         \<or> (\<exists>q\<ge>1. case fetch_page q of Inl e \<Rightarrow> True | Inr html \<Rightarrow> parse html = [])"
  shows "\<exists>p\<ge>1. stops_at fetch_page parse max_pages p
           \<and> (\<forall>r. 1 \<le> r \<and> r < p \<longrightarrow> \<not> stops_at fetch_page parse max_pages r)
           \<and> discover_documents fetch_page parse max_pages
               = Some (concat (map (docs_of_page fetch_page parse) [1..p - 1]))"
proof -
  from assms have "\<exists>q\<ge>1. stops_at fetch_page parse max_pages q"
  proof
    assume "\<exists>m. max_pages = Some m \<and> m \<noteq> 0"
    then obtain m where "max_pages = Some m" "m \<noteq> 0" by blast
    then have "stops_at fetch_page parse max_pages (max 1 (m + 1))"
      by (auto simp: stops_at_def limit_reached_def)
    then show ?thesis by (intro exI [of _ "max 1 (m + 1)"]) simp
  next
    assume "\<exists>q\<ge>1. case fetch_page q of Inl e \<Rightarrow> True | Inr html \<Rightarrow> parse html = []"
    then show ?thesis by (auto simp: stops_at_def)
  qed
  then obtain q where "1 \<le> q" "stops_at fetch_page parse max_pages q" by blast
  from first_stop_exists [OF this(2,1)] obtain p where p: "1 \<le> p"
    "stops_at fetch_page parse max_pages p"
    "\<forall>r. 1 \<le> r \<and> r < p \<longrightarrow> \<not> stops_at fetch_page parse max_pages r"
    by blast
  from discover_loop_first_stop [OF p(2,3,1), of "[]"]
  have "discover_documents fetch_page parse max_pages
      = Some (concat (map (docs_of_page fetch_page parse) [1..p - 1]))"
    by (simp add: discover_documents_def)
  with p show ?thesis by blast
qed


theorem discover_documents_stops_witness:
  "(\<exists>m. Some (3::int) = Some m \<and> m \<noteq> 0)
   \<and> (\<exists>p\<ge>1. stops_at second_page_fails titles (Some 3) p
        \<and> discover_documents second_page_fails titles (Some 3)
            = Some (concat (map (docs_of_page second_page_fails titles) [1..p - 1])))"
proof -
  have given: "\<exists>m. Some (3::int) = Some m \<and> m \<noteq> 0" by simp
  then have "(\<exists>m. Some (3::int) = Some m \<and> m \<noteq> 0)
      \<or> (\<exists>q\<ge>1. case second_page_fails q of Inl e \<Rightarrow> True | Inr html \<Rightarrow> titles html = [])"
    by (rule disjI1)
  from discover_documents_stops [OF this] given show ?thesis by blast
qed

section \<open>Properties of the listing parsers\<close>

text \<open>
  The example plugin skips an item whose parsing raises and keeps every other item of
  the page: the documents of a page are those of the items before the failing one
  followed by those of the items after it.
\<close>

lemma mysource_loop_acc:
  "mysource_loop env items documents' = documents' @ mysource_loop env items []"
proof (induction items arbitrary: documents')
  case Nil
  show ?case by simp
next
  case (Cons item items)
  show ?case
  proof (cases "mysource_parse_item env item")
    case (Inl e)
    with Cons [of documents'] show ?thesis by simp
  next
    case (Inr r)
    show ?thesis
    proof (cases r)
      case None
      with Inr Cons [of documents'] show ?thesis by simp
    next
      case (Some doc)
      with Inr Cons [of "documents' @ [doc]"] Cons [of "[doc]"] show ?thesis by simp
    qed
  qed
qed

lemma mysource_append:
  "mysource_parse_search_results env (xs @ ys)
     = mysource_parse_search_results env xs @ mysource_parse_search_results env ys"
proof (induction xs)
  case Nil
  show ?case by (simp add: mysource_parse_search_results_def)
next
  case (Cons item xs)
  have step: "mysource_parse_search_results env (item # zs)
      = mysource_loop env [item] [] @ mysource_parse_search_results env zs" for zs
    unfolding mysource_parse_search_results_def
    by (cases "mysource_parse_item env item")
       (auto simp: mysource_loop_acc [of env zs "[_]"] split: option.splits)
  from Cons show ?case
    by (simp add: step)
qed

lemma mysource_skips_failed_item:
  "mysource_parse_item env item = Inl e \<Longrightarrow>
     mysource_parse_search_results env (before @ item # after)
       = mysource_parse_search_results env before @ mysource_parse_search_results env after"
  unfolding mysource_append [of env before "item # after"]
  by (simp add: mysource_parse_search_results_def)



text \<open>
  The Gemeenteblad scraper passes over an item that lacks the title element or the URL
  element and keeps the other items of the page.
\<close>

lemma gemeenteblad_skips_missing_element:
  assumes "title_elem item = None \<or> url_elem item = None"
  shows "gemeenteblad_parse_search_results env (item # items)
           = gemeenteblad_parse_search_results env items"
proof -
  from assms have "gemeenteblad_item env item = Inr None"
    by (auto simp: gemeenteblad_item_def split: option.splits)
  then show ?thesis
    by (simp add: gemeenteblad_parse_search_results_def)
qed

text \<open>
  C5 fails for the Gemeenteblad scraper: on a page of three items, the second a link
  with no \<open>href\<close> attribute, \<open>_parse_search_results\<close> raises \<open>KeyError\<close> and
  returns none of the three, where the example plugin returns the first and the third.
\<close>

theorem gemeenteblad_parse_aborts:
  "gemeenteblad_parse_search_results env [item_first, item_without_href, item_third]
     = Inl (KeyError ''href'')"
  by (simp add: gemeenteblad_parse_search_results_def gemeenteblad_item_def getitem_def
      item_first_def item_without_href_def item_third_def)


lemma mysource_keeps_the_others:
  assumes "mysource_parse_item env item_first = Inr (Some first)"
    and "mysource_parse_item env item_third = Inr (Some third)"
  shows "mysource_parse_search_results env [item_first, item_without_href, item_third]
           = [first, third]"
proof -
  have "mysource_parse_item env item_without_href = Inr None"
    by (simp add: mysource_parse_item_def item_without_href_def get_def Let_def)
  with assms show ?thesis
    by (simp add: mysource_parse_search_results_def)
qed

section \<open>Properties of the Deduplication Gate\<close>

text \<open>
  C1. For every call \<open>decide(sourceID, externalID, fingerprint)\<close>: with no record
  stored for the pair of source and external id the decision is \<open>new\<close>; with a stored
  fingerprint that differs from the given one it is \<open>updated\<close>; with the same
  fingerprint stored it is \<open>unchanged\<close>, and the disposition of the document leaves the
  pipeline state as it is, the log of Index Writer invocations included. So a document
  disposed of twice with the same fingerprint is \<open>unchanged\<close> the second time and the
  Index Writer is not invoked for it again.
\<close>

theorem decide_dispositions:
  "(last_fingerprint state (sourceID, externalID) = None
      \<longrightarrow> decide (last_fingerprint state) sourceID externalID fp = New)
   \<and> (last_fingerprint state (sourceID, externalID) = Some stored \<and> stored \<noteq> fp
      \<longrightarrow> decide (last_fingerprint state) sourceID externalID fp = Updated)
   \<and> (last_fingerprint state (sourceID, externalID) = Some fp
      \<longrightarrow> decide (last_fingerprint state) sourceID externalID fp = Unchanged
        \<and> dispose state sourceID externalID fp = (Unchanged, state))
   \<and> fst (dispose (snd (dispose state sourceID externalID fp)) sourceID externalID fp) = Unchanged
   \<and> index_writes (snd (dispose (snd (dispose state sourceID externalID fp))
         sourceID externalID fp))
       = index_writes (snd (dispose state sourceID externalID fp))"
proof -
  have twice: "dispose (snd (dispose state sourceID externalID fp)) sourceID externalID fp
      = (Unchanged, snd (dispose state sourceID externalID fp))"
    by (cases "last_fingerprint state (sourceID, externalID)")
       (simp_all add: dispose_def decide_def)
  show ?thesis
    by (simp add: twice) (simp add: dispose_def decide_def)
qed

theorem decide_dispositions_witness:
  "decide Map.empty ''gemeenteblad'' ''doc-1'' ''ab12'' = New
   \<and> decide [(''gemeenteblad'', ''doc-1'') \<mapsto> ''ab12''] ''gemeenteblad'' ''doc-1'' ''cd34'' = Updated
   \<and> decide [(''gemeenteblad'', ''doc-1'') \<mapsto> ''ab12''] ''gemeenteblad'' ''doc-1'' ''ab12''
       = Unchanged
   \<and> index_writes (snd (dispose
         \<lparr>last_fingerprint = [(''gemeenteblad'', ''doc-1'') \<mapsto> ''ab12''], index_writes = []\<rparr>
         ''gemeenteblad'' ''doc-1'' ''ab12'')) = []"
proof -
  let ?seen = "\<lparr>last_fingerprint = [(''gemeenteblad'', ''doc-1'') \<mapsto> ''ab12''], index_writes = []\<rparr>"
  let ?fresh = "\<lparr>last_fingerprint = Map.empty, index_writes = []\<rparr>"
  from decide_dispositions [of ?fresh "''gemeenteblad''" "''doc-1''" "''ab12''"]
  have a: "decide Map.empty ''gemeenteblad'' ''doc-1'' ''ab12'' = New"
    by simp
  from decide_dispositions [of ?seen "''gemeenteblad''" "''doc-1''" "''cd34''" "''ab12''"]
  have b: "decide [(''gemeenteblad'', ''doc-1'') \<mapsto> ''ab12''] ''gemeenteblad'' ''doc-1'' ''cd34''
      = Updated"
    by simp
  from decide_dispositions [of ?seen "''gemeenteblad''" "''doc-1''" "''ab12''"]
  have c: "decide [(''gemeenteblad'', ''doc-1'') \<mapsto> ''ab12''] ''gemeenteblad'' ''doc-1'' ''ab12''
      = Unchanged"
    and d: "dispose ?seen ''gemeenteblad'' ''doc-1'' ''ab12'' = (Unchanged, ?seen)"
    by simp_all
  from a b c d show ?thesis by simp
qed

end
